theory Spec2Isabelle
  imports Complex_Main "HOL-Library.Sublist"
begin

section \<open>Text primitives\<close>

text \<open>
  A Python \<open>str\<close> is modelled as a \<open>string\<close> whose characters are code points below 256
  (Latin-1), so \<open>length\<close> is Python's \<open>len\<close>. \<open>is_space\<close> is \<open>str.isspace\<close> on that
  range, which is also what \<open>\s\<close> matches in a \<open>str\<close> pattern of \<open>re\<close>.
\<close>

definition newline :: char where
  "newline = CHR 0x0A"

definition is_space :: "char \<Rightarrow> bool" where
  "is_space c = (c \<in> set [CHR 0x20, CHR 0x09, CHR 0x0A, CHR 0x0B, CHR 0x0C, CHR 0x0D,
                            CHR 0x1C, CHR 0x1D, CHR 0x1E, CHR 0x1F, CHR 0x85, CHR 0xA0])"

text \<open>\<open>s.strip()\<close>: leading and trailing whitespace removed.\<close>

definition lstrip :: "string \<Rightarrow> string" where
  "lstrip s = dropWhile is_space s"

definition rstrip :: "string \<Rightarrow> string" where
  "rstrip s = rev (dropWhile is_space (rev s))"

definition strip :: "string \<Rightarrow> string" where
  "strip s = rstrip (lstrip s)"

text \<open>\<open>s.endswith(suf)\<close> and \<open>s.startswith(p)\<close>.\<close>

definition endswith :: "string \<Rightarrow> string \<Rightarrow> bool" where
  "endswith s suf = (length suf \<le> length s \<and> drop (length s - length suf) s = suf)"

definition startswith :: "string \<Rightarrow> string \<Rightarrow> bool" where
  "startswith s p = (take (length p) s = p)"

text \<open>\<open>re.match(r"^[A-Z]", s)\<close>: the first character is one of the letters A to Z.\<close>

definition is_upper_AZ :: "char \<Rightarrow> bool" where
  "is_upper_AZ c = (65 \<le> (of_char c :: nat) \<and> (of_char c :: nat) \<le> 90)"

definition match_upper :: "string \<Rightarrow> bool" where
  "match_upper s = (case s of [] \<Rightarrow> False | c # _ \<Rightarrow> is_upper_AZ c)"

text \<open>\<open>re.search(p, s)\<close> for a pattern \<open>p\<close> without metacharacters: \<open>p\<close> occurs in \<open>s\<close>.\<close>

fun contains :: "string \<Rightarrow> string \<Rightarrow> bool" where
  "contains p [] = (p = [])"
| "contains p (c # cs) = (startswith (c # cs) p \<or> contains p cs)"

section \<open>The document reader's output\<close>

text \<open>
  PyMuPDF's \<open>page.get_text("dict")\<close> gives blocks; a text block has \<open>"lines"\<close>, an
  image block has none; a line has \<open>"spans"\<close>; a span has a font name, a size and a text.
  Sizes are floats that the code only compares for equality with its thresholds; they are
  modelled by the rational they denote. A link of \<open>page.get_links()\<close> may carry a
  \<open>"uri"\<close>; \<open>link_textbox\<close> is what \<open>page.get_textbox\<close> returns for its rectangle.
  \<open>page_plain\<close> is the page's \<open>get_text("text")\<close>.
\<close>

record span =
  span_font :: string
  span_size :: rat
  span_text :: string

type_synonym line = "span list"

datatype block = Image_block | Text_block "line list"

record pdf_link =
  link_uri :: "string option"
  link_textbox :: string

record page =
  page_links :: "pdf_link list"
  page_blocks :: "block list"
  page_plain :: string

type_synonym document = "page list"

section \<open>Footnote extraction (footnote.py)\<close>

record fn_state =
  rows :: "(nat \<times> string) list"
  collecting :: bool
  footnote_text :: string

definition fn_init :: fn_state where
  "fn_init = \<lparr>rows = [], collecting = False, footnote_text = []\<rparr>"

text \<open>
  \<open>rows.append((page_num + 1, footnote_text.strip())); collecting = False;
  footnote_text = ""\<close>, as lines 107-109 and 124-126 do.
\<close>

definition emit_row :: "nat \<Rightarrow> fn_state \<Rightarrow> fn_state" where
  "emit_row page_num st =
     st\<lparr>rows := rows st @ [(page_num + 1, strip (footnote_text st))],
        collecting := False, footnote_text := []\<rparr>"

text \<open>
  The body of the loop over \<open>enumerate(spans)\<close> (lines 99-121) at index \<open>i\<close>. The
  \<open>continue\<close> of line 110 skips both the append of line 111 and the start test of
  line 113. \<open>i < len(spans) - 1\<close> is written \<open>i + 1 < length spans\<close>.
\<close>

definition footnote_span_step ::
  "string \<Rightarrow> rat \<Rightarrow> rat \<Rightarrow> nat \<Rightarrow> span list \<Rightarrow> fn_state \<Rightarrow> nat \<Rightarrow> fn_state" where
  "footnote_span_step target_font size1 size2 page_num spans st i =
     (let sp = spans ! i; text = span_text sp in
      if collecting st \<and> i + 1 < length spans \<and> endswith text ''.''
           \<and> match_upper (span_text (spans ! (i + 1)))
      then emit_row page_num st
      else
        let st1 = (if collecting st
                   then st\<lparr>footnote_text := footnote_text st @ '' '' @ text\<rparr> else st)
        in if \<not> collecting st1 \<and> span_font sp = target_font \<and> span_size sp = size1
                \<and> i + 1 < length spans \<and> span_size (spans ! (i + 1)) = size2
           then st1\<lparr>collecting := True,
                    footnote_text := text @ '' '' @ strip (span_text (spans ! (i + 1)))\<rparr>
           else st1)"

text \<open>
  One line of a block from span index \<open>i\<close> on: the remaining iterations of the span
  loop, then the test of line 123 (\<open>line_num == len(b["lines"]) - 1\<close>). The loop body
  over \<open>enumerate(b["lines"])\<close> is \<open>footnote_line_from\<close> at \<open>i = 0\<close>.
\<close>

definition footnote_line_from ::
  "string \<Rightarrow> rat \<Rightarrow> rat \<Rightarrow> nat \<Rightarrow> line list \<Rightarrow> nat \<Rightarrow> nat \<Rightarrow> fn_state \<Rightarrow> fn_state" where
  "footnote_line_from target_font size1 size2 page_num lines line_num i st =
     (let spans = lines ! line_num;
          st1 = foldl (footnote_span_step target_font size1 size2 page_num spans) st
                  [i..<length spans]
      in if collecting st1 \<and> line_num + 1 = length lines then emit_row page_num st1 else st1)"

definition footnote_line_step ::
  "string \<Rightarrow> rat \<Rightarrow> rat \<Rightarrow> nat \<Rightarrow> line list \<Rightarrow> fn_state \<Rightarrow> nat \<Rightarrow> fn_state" where
  "footnote_line_step target_font size1 size2 page_num lines st line_num =
     footnote_line_from target_font size1 size2 page_num lines line_num 0 st"

text \<open>
  The lines of a block from line \<open>line_num\<close>, span \<open>i\<close> on: the rest of that line, then
  every later line of the block.
\<close>

definition footnote_block_from ::
  "string \<Rightarrow> rat \<Rightarrow> rat \<Rightarrow> nat \<Rightarrow> line list \<Rightarrow> nat \<Rightarrow> nat \<Rightarrow> fn_state \<Rightarrow> fn_state" where
  "footnote_block_from target_font size1 size2 page_num lines line_num i st =
     foldl (footnote_line_step target_font size1 size2 page_num lines)
       (footnote_line_from target_font size1 size2 page_num lines line_num i st)
       [Suc line_num..<length lines]"

definition footnote_block_step ::
  "string \<Rightarrow> rat \<Rightarrow> rat \<Rightarrow> nat \<Rightarrow> fn_state \<Rightarrow> block \<Rightarrow> fn_state" where
  "footnote_block_step target_font size1 size2 page_num st b =
     (case b of
        Image_block \<Rightarrow> st
      | Text_block lines \<Rightarrow>
          foldl (footnote_line_step target_font size1 size2 page_num lines) st
            [0..<length lines])"

definition footnote_page_step ::
  "string \<Rightarrow> rat \<Rightarrow> rat \<Rightarrow> document \<Rightarrow> fn_state \<Rightarrow> nat \<Rightarrow> fn_state" where
  "footnote_page_step target_font size1 size2 doc st page_num =
     foldl (footnote_block_step target_font size1 size2 page_num) st
       (page_blocks (doc ! page_num))"

text \<open>
  \<open>extract_footnotes\<close>; the document stands for the opened \<open>pdf_path\<close>. At line 129
  \<open>page_num\<close> is the last page index, \<open>length doc - 1\<close>.
\<close>

definition extract_footnotes ::
  "document \<Rightarrow> string \<Rightarrow> rat \<Rightarrow> rat \<Rightarrow> (nat \<times> string) list" where
  "extract_footnotes doc target_font size1 size2 =
     (let st = foldl (footnote_page_step target_font size1 size2 doc) fn_init
                 [0..<length doc]
      in if collecting st \<and> strip (footnote_text st) \<noteq> []
         then rows st @ [(length doc - 1 + 1, strip (footnote_text st))]
         else rows st)"

section \<open>Opinion extraction (opinion.py)\<close>

text \<open>
  The script's module-level variables are the fields of \<open>opinion_state\<close>;
  \<open>collection\<close> lists the documents passed to \<open>collection.insert_one\<close>, in order.
  \<open>insert_one\<close> serialises its argument when called, so each record holds the
  hyperlink list as it was at that moment.
\<close>

record url =
  raw_text :: string
  link :: string

record opinion_record =
  rec_pdf :: string
  rec_opinion_id :: nat
  rec_start_page :: "nat option"
  rec_end_page :: nat
  rec_content :: string
  rec_urls_dic :: "url list"

record opinion_state =
  opinion_started :: bool
  page_text :: string
  urls_dic_accumulated :: "url list"
  opinion_id :: nat
  start_page_1based :: "nat option"
  collection :: "opinion_record list"

definition opinion_init :: opinion_state where
  "opinion_init = \<lparr>opinion_started = False, page_text = [], urls_dic_accumulated = [],
                      opinion_id = 0, start_page_1based = None, collection = []\<rparr>"

definition opinion_pattern :: string where
  "opinion_pattern = ''Opinion''"

definition end_pattern :: string where
  "end_pattern = ''End of Document''"

definition get_page_links :: "page \<Rightarrow> url list" where
  "get_page_links pg =
     concat (map (\<lambda>l. case link_uri l of
                          None \<Rightarrow> []
                        | Some uri \<Rightarrow> [\<lparr>raw_text = strip (link_textbox l), link = uri\<rparr>])
               (page_links pg))"

text \<open>
  \<open>page_marker_pattern\<close> is \<open>Page\s+\d+\s+of\s+\d+\<close> with \<open>re.IGNORECASE\<close>. Letters,
  whitespace and digits are disjoint classes, so each greedy \<open>+\<close> takes its whole run and
  no shorter choice can match: a match at the head of a string is found by one pass.
  \<open>lower_code\<close> is \<open>str.lower\<close> on code points below 256; \<open>\d\<close> is 0 to 9 there.
\<close>

definition lower_code :: "nat \<Rightarrow> nat" where
  "lower_code n = (if (65 \<le> n \<and> n \<le> 90) \<or> (192 \<le> n \<and> n \<le> 222 \<and> n \<noteq> 215)
                   then n + 32 else n)"

definition eq_ci :: "char \<Rightarrow> char \<Rightarrow> bool" where
  "eq_ci c d = (lower_code (of_char c) = lower_code (of_char d))"

definition is_digit :: "char \<Rightarrow> bool" where
  "is_digit c = (48 \<le> (of_char c :: nat) \<and> (of_char c :: nat) \<le> 57)"

text \<open>Each matcher returns what is left of the string after its match.\<close>

fun match_lit_ci :: "string \<Rightarrow> string \<Rightarrow> string option" where
  "match_lit_ci [] s = Some s"
| "match_lit_ci (p # ps) [] = None"
| "match_lit_ci (p # ps) (c # cs) = (if eq_ci p c then match_lit_ci ps cs else None)"

definition match_run :: "(char \<Rightarrow> bool) \<Rightarrow> string \<Rightarrow> string option" where
  "match_run cls s = (case s of
                        [] \<Rightarrow> None
                      | c # cs \<Rightarrow> if cls c then Some (dropWhile cls cs) else None)"

definition match_page_marker :: "string \<Rightarrow> string option" where
  "match_page_marker s =
     (case match_lit_ci ''Page'' s of None \<Rightarrow> None | Some r1 \<Rightarrow>
      case match_run is_space r1 of None \<Rightarrow> None | Some r2 \<Rightarrow>
      case match_run is_digit r2 of None \<Rightarrow> None | Some r3 \<Rightarrow>
      case match_run is_space r3 of None \<Rightarrow> None | Some r4 \<Rightarrow>
      case match_lit_ci ''of'' r4 of None \<Rightarrow> None | Some r5 \<Rightarrow>
      case match_run is_space r5 of None \<Rightarrow> None | Some r6 \<Rightarrow>
      match_run is_digit r6)"

text \<open>
  \<open>page_marker_pattern.sub("", s)\<close>: scanning from the left, a match is dropped and the
  scan goes on after it. \<open>skip\<close> counts the characters of the current match still to drop.
\<close>

fun sub_page_marker_from :: "nat \<Rightarrow> string \<Rightarrow> string" where
  "sub_page_marker_from skip [] = []"
| "sub_page_marker_from (Suc skip) (c # cs) = sub_page_marker_from skip cs"
| "sub_page_marker_from 0 (c # cs) =
     (case match_page_marker (c # cs) of
        Some r \<Rightarrow> sub_page_marker_from (length cs - length r) cs
      | None \<Rightarrow> c # sub_page_marker_from 0 cs)"

definition sub_page_marker :: "string \<Rightarrow> string" where
  "sub_page_marker s = sub_page_marker_from 0 s"

text \<open>\<open>re.sub(end_pattern, "", s)\<close>, the same scan for the literal \<open>End of Document\<close>.\<close>

fun sub_end_pattern_from :: "nat \<Rightarrow> string \<Rightarrow> string" where
  "sub_end_pattern_from skip [] = []"
| "sub_end_pattern_from (Suc skip) (c # cs) = sub_end_pattern_from skip cs"
| "sub_end_pattern_from 0 (c # cs) =
     (if startswith (c # cs) end_pattern
      then sub_end_pattern_from (length end_pattern - 1) cs
      else c # sub_end_pattern_from 0 cs)"

definition sub_end_pattern :: "string \<Rightarrow> string" where
  "sub_end_pattern s = sub_end_pattern_from 0 s"

text \<open>The header test of line 99 and the body test of lines 125-129, on the trimmed text.\<close>

definition opinion_header :: "span \<Rightarrow> bool" where
  "opinion_header sp =
     (span_size sp = 14 \<and> span_font sp = ''Helvetica-Bold''
        \<and> contains opinion_pattern (strip (span_text sp)))"

definition opinion_body :: "span \<Rightarrow> bool" where
  "opinion_body sp =
     (span_size sp = 10
        \<and> span_font sp \<in> set [''Helvetica'', ''Helvetica-BoldOblique'', ''Helvetica-Oblique''])"

text \<open>
  The body of the span loop (lines 88-151). \<open>page_1based - 1\<close> is exact on \<open>nat\<close> since
  \<open>page_1based = page_num + 1\<close>.
\<close>

definition opinion_span_step ::
  "string \<Rightarrow> nat \<Rightarrow> opinion_state \<Rightarrow> span \<Rightarrow> opinion_state" where
  "opinion_span_step pdf_name page_num st sp =
     (let page_1based = page_num + 1; text = strip (span_text sp) in
      if opinion_header sp then
        (let st1 =
           (if opinion_started st \<and> strip (page_text st) \<noteq> []
            then st\<lparr>collection := collection st @
                      [\<lparr>rec_pdf = pdf_name, rec_opinion_id = opinion_id st,
                        rec_start_page = start_page_1based st,
                        rec_end_page = page_1based - 1,
                        rec_content = strip (page_text st),
                        rec_urls_dic = urls_dic_accumulated st\<rparr>],
                    opinion_id := opinion_id st + 1,
                    page_text := [],
                    urls_dic_accumulated := []\<rparr>
            else st)
         in st1\<lparr>opinion_started := True, start_page_1based := Some page_1based\<rparr>)
      else
        (let st1 =
           (if opinion_started st \<and> opinion_body sp \<and> text \<noteq> []
            then st\<lparr>page_text := strip (sub_page_marker (page_text st @ '' '' @ text))\<rparr>
            else st)
         in if opinion_started st1 \<and> contains end_pattern text
            then st1\<lparr>collection := collection st1 @
                       [\<lparr>rec_pdf = pdf_name, rec_opinion_id = opinion_id st1,
                         rec_start_page = start_page_1based st1,
                         rec_end_page = page_1based,
                         rec_content = strip (sub_end_pattern (page_text st1)),
                         rec_urls_dic = urls_dic_accumulated st1\<rparr>],
                     opinion_id := opinion_id st1 + 1,
                     opinion_started := False,
                     page_text := [],
                     urls_dic_accumulated := []\<rparr>
            else st1))"

definition opinion_block_step ::
  "string \<Rightarrow> nat \<Rightarrow> opinion_state \<Rightarrow> block \<Rightarrow> opinion_state" where
  "opinion_block_step pdf_name page_num st b =
     (case b of
        Image_block \<Rightarrow> st
      | Text_block lines \<Rightarrow>
          foldl (\<lambda>s spans. foldl (opinion_span_step pdf_name page_num) s spans) st lines)"

text \<open>Lines 74-87: the page's links are added first, then its blocks are read.\<close>

definition opinion_page_step ::
  "string \<Rightarrow> document \<Rightarrow> opinion_state \<Rightarrow> nat \<Rightarrow> opinion_state" where
  "opinion_page_step pdf_name doc st page_num =
     (let pg = doc ! page_num;
          st1 = st\<lparr>urls_dic_accumulated := urls_dic_accumulated st @ get_page_links pg\<rparr>
      in foldl (opinion_block_step pdf_name page_num) st1 (page_blocks pg))"

definition opinion_pages :: "string \<Rightarrow> document \<Rightarrow> opinion_state" where
  "opinion_pages pdf_name doc =
     foldl (opinion_page_step pdf_name doc) opinion_init [0..<length doc]"

text \<open>The whole script: the page loop, then the finalization of lines 157-165.\<close>

definition opinion_main :: "string \<Rightarrow> document \<Rightarrow> opinion_record list" where
  "opinion_main pdf_name doc =
     (let st = opinion_pages pdf_name doc in
      if opinion_started st \<and> strip (page_text st) \<noteq> []
      then collection st @
             [\<lparr>rec_pdf = pdf_name, rec_opinion_id = opinion_id st,
               rec_start_page = start_page_1based st,
               rec_end_page = length doc,
               rec_content = strip (page_text st),
               rec_urls_dic = urls_dic_accumulated st\<rparr>]
      else collection st)"

section \<open>Page ranges (footnote.py)\<close>

text \<open>
  A document of the index collection and an entry of the table built from it. Page
  numbers are integers; \<open>'u\<close> is the type of the \<open>"No"\<close> values.
\<close>

record 'u index_doc =
  idx_pdf :: "string option"
  idx_page :: int
  idx_end_page :: "int option"
  idx_No :: 'u

record 'u range_entry =
  entry_No :: 'u
  entry_start :: int
  entry_end :: "int option"

text \<open>
  Lines 39-49: a document without \<open>"pdf"\<close>, or with an empty one, is skipped;
  \<open>ranges.setdefault(pdf, []).append(entry)\<close> otherwise.
\<close>

definition load_step ::
  "(string \<rightharpoonup> 'u range_entry list) \<Rightarrow> 'u index_doc \<Rightarrow> (string \<rightharpoonup> 'u range_entry list)" where
  "load_step ranges idx =
     (case idx_pdf idx of
        None \<Rightarrow> ranges
      | Some pdf \<Rightarrow>
          if pdf = [] then ranges
          else ranges(pdf \<mapsto>
                 (case ranges pdf of None \<Rightarrow> [] | Some es \<Rightarrow> es) @
                 [\<lparr>entry_No = idx_No idx, entry_start = idx_page idx,
                   entry_end = idx_end_page idx\<rparr>]))"

text \<open>Lines 52-53: every list is sorted by \<open>start\<close>; Python's sort is stable, as \<open>sort_key\<close>.\<close>

definition load_index_ranges ::
  "'u index_doc list \<Rightarrow> (string \<rightharpoonup> 'u range_entry list)" where
  "load_index_ranges docs =
     (\<lambda>pdf. map_option (sort_key entry_start) (foldl load_step Map.empty docs pdf))"

fun find_no_loop :: "'u range_entry list \<Rightarrow> int \<Rightarrow> 'u option" where
  "find_no_loop [] page = None"
| "find_no_loop (r # rs) page =
     (case entry_end r of
        Some e \<Rightarrow>
          if entry_start r \<le> page \<and> page \<le> e then Some (entry_No r)
          else find_no_loop rs page
      | None \<Rightarrow>
          if page \<ge> entry_start r then Some (entry_No r)
          else find_no_loop rs page)"

definition find_no_for_page ::
  "(string \<rightharpoonup> 'u range_entry list) \<Rightarrow> string \<Rightarrow> int \<Rightarrow> 'u option" where
  "find_no_for_page index_ranges pdf page =
     (case index_ranges pdf of None \<Rightarrow> None | Some rs \<Rightarrow> find_no_loop rs page)"

text \<open>
  The resolver as the specification words it: a range qualifies for a page when
  \<open>start \<le> page \<le> end\<close>, or \<open>page \<ge> start\<close> when it has no end; the answer is the
  unit of the first qualifying range.
\<close>

definition range_qualifies :: "int \<Rightarrow> 'u range_entry \<Rightarrow> bool" where
  "range_qualifies page r =
     (case entry_end r of
        Some e \<Rightarrow> entry_start r \<le> page \<and> page \<le> e
      | None \<Rightarrow> entry_start r \<le> page)"

definition resolve_spec :: "'u range_entry list \<Rightarrow> int \<Rightarrow> 'u option" where
  "resolve_spec rs page = map_option entry_No (find (range_qualifies page) rs)"

section \<open>Metadata extraction (lexis_metadata_extractor.py)\<close>

text \<open>
  \<open>extract_section\<close> searches
  \<open>re.escape(start_label) \s+ ([\s\S]+?) (?=\n(?:end_pat))\<close> with \<open>re.IGNORECASE\<close>, where
  \<open>end_pat\<close> joins the end labels with \<open>|\<close>. The end labels are regular expressions;
  the ones the module uses are sequences of literal characters and \<open>\d\<close>, each taken
  once, optionally (\<open>?\<close>) or repeatedly (\<open>+\<close>), and a label is modelled by that sequence.
\<close>

datatype item = Lit char | Digit

datatype quant = One | Opt | Plus

type_synonym pat = "(item \<times> quant) list"

definition lit :: "string \<Rightarrow> pat" where
  "lit s = map (\<lambda>c. (Lit c, One)) s"

fun item_ok :: "item \<Rightarrow> char \<Rightarrow> bool" where
  "item_ok (Lit p) c = eq_ci p c"
| "item_ok Digit c = is_digit c"

text \<open>Some prefix of the string matches the pattern (all a lookahead asks).\<close>

fun pat_match :: "pat \<Rightarrow> string \<Rightarrow> bool" where
  "pat_match [] s = True"
| "pat_match ((it, q) # p) [] = (q = Opt \<and> pat_match p [])"
| "pat_match ((it, One) # p) (c # cs) = (item_ok it c \<and> pat_match p cs)"
| "pat_match ((it, Opt) # p) (c # cs) =
     ((item_ok it c \<and> pat_match p cs) \<or> pat_match p (c # cs))"
| "pat_match ((it, Plus) # p) (c # cs) =
     (item_ok it c \<and> (pat_match ((it, Plus) # p) cs \<or> pat_match p cs))"

text \<open>
  \<open>(?=\n(?:end_pat))\<close> at the head of \<open>s\<close>. With no end label \<open>end_pat\<close> is empty and
  the group matches the empty string.
\<close>

definition lookahead :: "pat list \<Rightarrow> string \<Rightarrow> bool" where
  "lookahead end_labels s =
     (case s of
        [] \<Rightarrow> False
      | c # cs \<Rightarrow> c = newline \<and> (end_labels = [] \<or> list_ex (\<lambda>p. pat_match p cs) end_labels))"

text \<open>\<open>([\s\S]+?)\<close>: the shortest non-empty run of any characters that ends where the
  lookahead holds.\<close>

fun lazy_group :: "pat list \<Rightarrow> string \<Rightarrow> string option" where
  "lazy_group end_labels [] = None"
| "lazy_group end_labels (c # cs) =
     (if lookahead end_labels cs then Some [c]
      else map_option (\<lambda>g. c # g) (lazy_group end_labels cs))"

text \<open>
  \<open>\s+\<close> is greedy: it first takes the whole run of whitespace after the label and gives
  characters back one at a time, down to one, until the rest of the pattern matches.
\<close>

fun ws_backtrack :: "pat list \<Rightarrow> string \<Rightarrow> nat \<Rightarrow> string option" where
  "ws_backtrack end_labels r 0 = None"
| "ws_backtrack end_labels r (Suc k) =
     (case lazy_group end_labels (drop (Suc k) r) of
        Some g \<Rightarrow> Some g
      | None \<Rightarrow> ws_backtrack end_labels r k)"

definition section_at :: "string \<Rightarrow> pat list \<Rightarrow> string \<Rightarrow> string option" where
  "section_at start_label end_labels s =
     (case match_lit_ci start_label s of
        None \<Rightarrow> None
      | Some r \<Rightarrow> ws_backtrack end_labels r (length (takeWhile is_space r)))"

text \<open>\<open>re.search\<close>: the first position of the text where the pattern matches; group 1.\<close>

fun search_section :: "string \<Rightarrow> pat list \<Rightarrow> string \<Rightarrow> string option" where
  "search_section start_label end_labels [] = section_at start_label end_labels []"
| "search_section start_label end_labels (c # cs) =
     (case section_at start_label end_labels (c # cs) of
        Some g \<Rightarrow> Some g
      | None \<Rightarrow> search_section start_label end_labels cs)"

text \<open>\<open>m.group(1).replace("\n", " ").strip()\<close>.\<close>

definition section_content :: "string \<Rightarrow> string" where
  "section_content g = strip (map (\<lambda>c. if c = newline then CHR '' '' else c) g)"

definition extract_section :: "string \<Rightarrow> pat list \<Rightarrow> string \<Rightarrow> int \<Rightarrow> string" where
  "extract_section start_label end_labels text max_len =
     (case search_section start_label end_labels text of
        None \<Rightarrow> []
      | Some g \<Rightarrow>
          (let content = section_content g
           in if int (length content) \<le> max_len then content else []))"

text \<open>The call of lines 156-161, with its end labels and its cap of 300.\<close>

definition judges_section :: "string \<Rightarrow> string" where
  "judges_section local_text =
     extract_section ''Judges:'' [lit ''Opinion by:'', lit ''Core Terms'', lit ''Counsel:'']
       local_text 300"

text \<open>
  \<open>extract_case_metadata_from_page\<close>. Lines 65-88 check the start page and read three
  things from the document: the text of the local window, the text of the extended window
  and the blocks of the start page. Lines 90-239 compute the record from these three
  values only and raise nothing; they are the parameter \<open>build_record\<close>.
\<close>

datatype error = ValueError int nat

fun join :: "string \<Rightarrow> string list \<Rightarrow> string" where
  "join sep [] = []"
| "join sep [x] = x"
| "join sep (x # y # ys) = x @ sep @ join sep (y # ys)"

definition window_text :: "document \<Rightarrow> int \<Rightarrow> int \<Rightarrow> string" where
  "window_text doc start scan_pages =
     join [newline]
       (map (\<lambda>p. page_plain (doc ! p))
          [nat start..<nat (min (start + scan_pages) (int (length doc)))])"

definition extract_case_metadata_from_page ::
  "(string \<Rightarrow> string \<Rightarrow> block list \<Rightarrow> 'm) \<Rightarrow> document \<Rightarrow> int \<Rightarrow> int \<Rightarrow> int \<Rightarrow> error + 'm" where
  "extract_case_metadata_from_page build_record doc start_page_0based local_scan_pages
     extended_scan_pages =
     (let n_pages = length doc in
      if \<not> (0 \<le> start_page_0based \<and> start_page_0based < int n_pages)
      then Inl (ValueError start_page_0based n_pages)
      else Inr (build_record (window_text doc start_page_0based local_scan_pages)
                  (window_text doc start_page_0based extended_scan_pages)
                  (page_blocks (doc ! nat start_page_0based))))"

section \<open>Proof devices\<close>

text \<open>
  The state in which the loops of a block, started in \<open>st0\<close>, reach span \<open>i\<close> of line
  \<open>line_num\<close>.
\<close>

definition footnote_state_at ::
  "string \<Rightarrow> rat \<Rightarrow> rat \<Rightarrow> nat \<Rightarrow> line list \<Rightarrow> fn_state \<Rightarrow> nat \<Rightarrow> nat \<Rightarrow> fn_state" where
  "footnote_state_at target_font size1 size2 page_num lines st0 line_num i =
     foldl (footnote_span_step target_font size1 size2 page_num (lines ! line_num))
       (foldl (footnote_line_step target_font size1 size2 page_num lines) st0 [0..<line_num])
       [0..<i]"

text \<open>
  A footnote opened with buffer \<open>p\<close> when the rows were \<open>rows0\<close> is either still open,
  its buffer an extension of \<open>p\<close>, or it was emitted as the next row.
\<close>

definition fn_open :: "string \<Rightarrow> (nat \<times> string) list \<Rightarrow> fn_state \<Rightarrow> bool" where
  "fn_open p rows0 st = (collecting st \<and> rows st = rows0 \<and> prefix p (footnote_text st))"

definition fn_done :: "nat \<Rightarrow> string \<Rightarrow> (nat \<times> string) list \<Rightarrow> fn_state \<Rightarrow> bool" where
  "fn_done pg p rows0 st =
     (\<exists>t more. rows st = rows0 @ (pg, t) # more \<and> prefix (strip p) t)"

text \<open>
  The identifiers of the records inserted so far are \<open>0, 1, ...\<close> up to the counter.
\<close>

definition ids_ok :: "opinion_state \<Rightarrow> bool" where
  "ids_ok st = (map rec_opinion_id (collection st) = [0..<opinion_id st])"

text \<open>
  Since a moment when the inserted records were \<open>c\<close> and the accumulated links \<open>u\<close>,
  either nothing was inserted and the links are still \<open>u\<close>, or a record was inserted.
\<close>

definition links_kept :: "opinion_record list \<Rightarrow> url list \<Rightarrow> opinion_state \<Rightarrow> bool" where
  "links_kept c u st =
     ((collection st = c \<and> urls_dic_accumulated st = u) \<or> length c < length (collection st))"

text \<open>Shorthand for the examples.\<close>

definition mk_span :: "string \<Rightarrow> rat \<Rightarrow> string \<Rightarrow> span" where
  "mk_span f s t = \<lparr>span_font = f, span_size = s, span_text = t\<rparr>"

definition text_page :: "line list \<Rightarrow> page" where
  "text_page lines = \<lparr>page_links = [], page_blocks = [Text_block lines], page_plain = []\<rparr>"

definition links_doc :: document where
  "links_doc =
     [\<lparr>page_links = [\<lparr>link_uri = Some ''http://a'', link_textbox = '' A ''\<rparr>,
                     \<lparr>link_uri = None, link_textbox = ''x''\<rparr>],
       page_blocks = [Image_block, Text_block [ [mk_span ''Helvetica'' 10 ''Syllabus''] ] ],
       page_plain = []\<rparr>,
      \<lparr>page_links = [\<lparr>link_uri = Some ''http://b'', link_textbox = ''B''\<rparr>],
       page_blocks = [Text_block [ [mk_span ''Helvetica-Bold'' 14 ''Opinion''],
                                  [mk_span ''Helvetica'' 10 ''The court holds.'',
                                   mk_span ''Helvetica'' 8 ''End of Document''] ] ],
       page_plain = []\<rparr>]"

definition two_headers_doc :: document where
  "two_headers_doc =
     [\<lparr>page_links = [\<lparr>link_uri = Some ''http://a'', link_textbox = ''A''\<rparr>],
       page_blocks = [Text_block [ [mk_span ''Helvetica-Bold'' 14 ''Opinion''] ] ],
       page_plain = []\<rparr>,
      \<lparr>page_links = [],
       page_blocks = [Text_block [ [mk_span ''Helvetica-Bold'' 14 ''Opinion''] ] ],
       page_plain = []\<rparr>]"

definition ex_table :: "string \<rightharpoonup> string range_entry list" where
  "ex_table =
     [''cp01.pdf'' \<mapsto> [\<lparr>entry_No = ''A'', entry_start = 1, entry_end = Some 10\<rparr>,
                       \<lparr>entry_No = ''B'', entry_start = 11, entry_end = None\<rparr>] ]"

definition ex_index :: "string index_doc list" where
  "ex_index =
     [\<lparr>idx_pdf = Some ''cp01.pdf'', idx_page = 11, idx_end_page = None, idx_No = ''B''\<rparr>,
      \<lparr>idx_pdf = None, idx_page = 3, idx_end_page = None, idx_No = ''C''\<rparr>,
      \<lparr>idx_pdf = Some ''cp01.pdf'', idx_page = 1, idx_end_page = Some 10, idx_No = ''A''\<rparr>]"

definition judges_text :: string where
  "judges_text = ''Judges: SMITH, JONES'' @ [newline] @ ''Opinion by: SMITH''"

definition judges_doc :: document where
  "judges_doc =
     [\<lparr>page_links = [], page_blocks = [], page_plain = ''Cover''\<rparr>,
      \<lparr>page_links = [], page_blocks = [Image_block], page_plain = judges_text\<rparr>]"

text \<open>
  The specification's words "an uppercase letter", read as \<open>str.isupper\<close> on code
  points below 256: the letters A to Z and the accented capitals.
\<close>

definition is_upper_letter :: "char \<Rightarrow> bool" where
  "is_upper_letter c =
     (let n = (of_char c :: nat)
      in (65 \<le> n \<and> n \<le> 90) \<or> (192 \<le> n \<and> n \<le> 222 \<and> n \<noteq> 215))"


section \<open>Trimming\<close>

lemma rstrip_prefix_self: "prefix (rstrip q) q"
proof -
  have "rev q = takeWhile is_space (rev q) @ dropWhile is_space (rev q)" by simp
  then have "q = rev (dropWhile is_space (rev q)) @ rev (takeWhile is_space (rev q))"
    by (metis rev_append rev_rev_ident)
  then show ?thesis unfolding rstrip_def by (metis prefixI)
qed

lemma rstrip_append_prefix: "prefix (rstrip q) (rstrip (q @ r))"
proof (cases "\<forall>c \<in> set r. is_space c")
  case True
  then have "dropWhile is_space (rev r @ rev q) = dropWhile is_space (rev q)"
    by (simp add: dropWhile_append)
  then show ?thesis by (simp add: rstrip_def)
next
  case False
  then obtain c where "c \<in> set (rev r)" "\<not> is_space c" by auto
  then have "dropWhile is_space (rev r @ rev q) = dropWhile is_space (rev r) @ rev q"
    by (rule dropWhile_append1)
  then have "rstrip (q @ r) = q @ rstrip r" by (simp add: rstrip_def)
  moreover have "prefix (rstrip q) q" by (rule rstrip_prefix_self)
  ultimately show ?thesis by (simp add: prefix_def) (metis append.assoc)
qed

lemma strip_append_prefix: "prefix (strip p) (strip (p @ r))"
proof (cases "\<forall>c \<in> set p. is_space c")
  case True
  then have e: "dropWhile is_space p = []" by simp
  show ?thesis by (simp only: strip_def lstrip_def rstrip_def e) simp
next
  case False
  then obtain c where "c \<in> set p" "\<not> is_space c" by auto
  then have "dropWhile is_space (p @ r) = dropWhile is_space p @ r"
    by (rule dropWhile_append1)
  then show ?thesis by (simp add: strip_def lstrip_def rstrip_append_prefix)
qed

lemma strip_prefix_mono: "prefix p t \<Longrightarrow> prefix (strip p) (strip t)"
  by (metis prefixE strip_append_prefix)

section \<open>Footnote extraction: closing on a full stop before a capital\<close>

text \<open>
  C2 (amended). While the footnote accumulator is collecting (OPEN), a span whose text ends
  with \<open>"."\<close> and whose successor in the same line begins with one of the letters A to Z
  (the pattern \<open>^[A-Z]\<close>) makes the accumulator emit and return to IDLE with an empty
  buffer: the row appended is the page index of the page being read plus one (the page
  where the segment closes) with the trimmed buffer as it was before this span, so the
  triggering span's text is not appended.
\<close>

theorem footnote_close_on_period:
  assumes "collecting st"
    and "i + 1 < length spans"
    and "endswith (span_text (spans ! i)) ''.''"
    and "match_upper (span_text (spans ! (i + 1)))"
  shows "footnote_span_step target_font size1 size2 page_num spans st i =
           st\<lparr>rows := rows st @ [(page_num + 1, strip (footnote_text st))],
              collecting := False, footnote_text := []\<rparr>"
  using assms by (simp add: footnote_span_step_def emit_row_def)

theorem footnote_close_on_period_witness:
  "collecting \<lparr>rows = [], collecting = True, footnote_text = ''1 See ''\<rparr>
   \<and> 0 + 1 < length [mk_span ''Helvetica'' 9 ''Doe.'', mk_span ''Helvetica'' 9 ''The'']
   \<and> endswith ''Doe.'' ''.'' \<and> match_upper ''The''
   \<and> footnote_span_step ''Helvetica'' 6 9 2
        [mk_span ''Helvetica'' 9 ''Doe.'', mk_span ''Helvetica'' 9 ''The'']
        \<lparr>rows = [], collecting = True, footnote_text = ''1 See ''\<rparr> 0
      = \<lparr>rows = [(3, ''1 See'')], collecting = False, footnote_text = []\<rparr>"
  using footnote_close_on_period
    [where st = "\<lparr>rows = [], collecting = True, footnote_text = ''1 See ''\<rparr>"
       and i = 0
       and spans = "[mk_span ''Helvetica'' 9 ''Doe.'', mk_span ''Helvetica'' 9 ''The'']"
       and target_font = "''Helvetica''" and ?size1.0 = 6 and ?size2.0 = 9 and page_num = 2]
  by (simp add: mk_span_def endswith_def match_upper_def is_upper_AZ_def
      strip_def lstrip_def rstrip_def is_space_def)

text \<open>
  The claim as first worded fails for an uppercase letter outside A to Z: after \<open>Doe.\<close>
  a span that begins with a capital E with acute accent (code point 201) does not close the
  footnote; no row is appended and \<open>Doe.\<close> joins the buffer.
\<close>

theorem footnote_close_uppercase_counterexample:
  "collecting \<lparr>rows = [], collecting = True, footnote_text = ''1 See''\<rparr>
   \<and> 0 + 1 < length [mk_span ''Helvetica'' 9 ''Doe.'', mk_span ''Helvetica'' 9 (CHR 0xC9 # ''tat'')]
   \<and> endswith ''Doe.'' ''.''
   \<and> is_upper_letter (CHR 0xC9)
   \<and> footnote_span_step ''Helvetica'' 6 9 2
        [mk_span ''Helvetica'' 9 ''Doe.'', mk_span ''Helvetica'' 9 (CHR 0xC9 # ''tat'')]
        \<lparr>rows = [], collecting = True, footnote_text = ''1 See''\<rparr> 0
      = \<lparr>rows = [], collecting = True, footnote_text = ''1 See Doe.''\<rparr>"
  by (simp add: footnote_span_step_def mk_span_def endswith_def match_upper_def is_upper_AZ_def
      is_upper_letter_def Let_def)

section \<open>Footnote extraction: an opened footnote is emitted within its block\<close>

lemma span_step_rows: "\<exists>xs. rows (footnote_span_step tf s1 s2 pn spans st i) = rows st @ xs"
  by (simp add: footnote_span_step_def emit_row_def Let_def)

lemma span_step_inv:
  assumes "fn_open p rows0 st \<or> fn_done (pn + 1) p rows0 st"
  shows "fn_open p rows0 (footnote_span_step tf s1 s2 pn spans st i)
       \<or> fn_done (pn + 1) p rows0 (footnote_span_step tf s1 s2 pn spans st i)"
  using assms
proof
  assume o: "fn_open p rows0 st"
  show ?thesis
  proof (cases "i + 1 < length spans \<and> endswith (span_text (spans ! i)) ''.''
           \<and> match_upper (span_text (spans ! (i + 1)))")
    case True
    with o have "footnote_span_step tf s1 s2 pn spans st i = emit_row pn st"
      by (simp add: footnote_span_step_def fn_open_def)
    moreover from o have "fn_done (pn + 1) p rows0 (emit_row pn st)"
      by (simp add: fn_done_def fn_open_def emit_row_def strip_prefix_mono)
    ultimately show ?thesis by simp
  next
    case False
    with o have "footnote_span_step tf s1 s2 pn spans st i =
        st\<lparr>footnote_text := footnote_text st @ '' '' @ span_text (spans ! i)\<rparr>"
      by (auto simp add: footnote_span_step_def fn_open_def Let_def)
    moreover from o have "fn_open p rows0
        (st\<lparr>footnote_text := footnote_text st @ '' '' @ span_text (spans ! i)\<rparr>)"
      by (auto simp add: fn_open_def prefix_def)
    ultimately show ?thesis by simp
  qed
next
  assume d: "fn_done (pn + 1) p rows0 st"
  obtain xs where "rows (footnote_span_step tf s1 s2 pn spans st i) = rows st @ xs"
    using span_step_rows by blast
  with d have "fn_done (pn + 1) p rows0 (footnote_span_step tf s1 s2 pn spans st i)"
    by (auto simp add: fn_done_def)
  then show ?thesis ..
qed

lemma span_loop_inv:
  "fn_open p rows0 st \<or> fn_done (pn + 1) p rows0 st \<Longrightarrow>
   fn_open p rows0 (foldl (footnote_span_step tf s1 s2 pn spans) st js)
     \<or> fn_done (pn + 1) p rows0 (foldl (footnote_span_step tf s1 s2 pn spans) st js)"
proof (induction js arbitrary: st)
  case Nil
  then show ?case by simp
next
  case (Cons j js)
  from Cons.prems have "fn_open p rows0 (footnote_span_step tf s1 s2 pn spans st j)
       \<or> fn_done (pn + 1) p rows0 (footnote_span_step tf s1 s2 pn spans st j)"
    by (rule span_step_inv)
  then show ?case using Cons.IH by simp
qed

lemma emit_row_done:
  "fn_open p rows0 st \<or> fn_done (pn + 1) p rows0 st \<Longrightarrow> collecting st \<Longrightarrow>
   fn_done (pn + 1) p rows0 (emit_row pn st)"
  by (auto simp add: fn_open_def fn_done_def emit_row_def strip_prefix_mono)

lemma line_from_inv:
  assumes "fn_open p rows0 st \<or> fn_done (pn + 1) p rows0 st"
  shows "fn_open p rows0 (footnote_line_from tf s1 s2 pn lines k i st)
       \<or> fn_done (pn + 1) p rows0 (footnote_line_from tf s1 s2 pn lines k i st)"
proof -
  let ?st1 = "foldl (footnote_span_step tf s1 s2 pn (lines ! k)) st [i..<length (lines ! k)]"
  have inv: "fn_open p rows0 ?st1 \<or> fn_done (pn + 1) p rows0 ?st1"
    using assms by (rule span_loop_inv)
  show ?thesis
  proof (cases "collecting ?st1 \<and> k + 1 = length lines")
    case True
    then have "fn_done (pn + 1) p rows0 (emit_row pn ?st1)"
      using inv emit_row_done by blast
    with True show ?thesis by (simp add: footnote_line_from_def Let_def)
  next
    case False
    with inv show ?thesis by (auto simp add: footnote_line_from_def Let_def)
  qed
qed

lemma line_from_last_done:
  assumes "fn_open p rows0 st \<or> fn_done (pn + 1) p rows0 st" and "k + 1 = length lines"
  shows "fn_done (pn + 1) p rows0 (footnote_line_from tf s1 s2 pn lines k i st)"
proof -
  let ?st1 = "foldl (footnote_span_step tf s1 s2 pn (lines ! k)) st [i..<length (lines ! k)]"
  have inv: "fn_open p rows0 ?st1 \<or> fn_done (pn + 1) p rows0 ?st1"
    using assms(1) by (rule span_loop_inv)
  show ?thesis
  proof (cases "collecting ?st1")
    case True
    then have "fn_done (pn + 1) p rows0 (emit_row pn ?st1)"
      using inv emit_row_done by blast
    with True assms(2) show ?thesis by (simp add: footnote_line_from_def Let_def)
  next
    case False
    with inv have "fn_done (pn + 1) p rows0 ?st1" by (auto simp add: fn_open_def)
    with False show ?thesis by (simp add: footnote_line_from_def Let_def)
  qed
qed

lemma line_loop_inv:
  "fn_open p rows0 st \<or> fn_done (pn + 1) p rows0 st \<Longrightarrow>
   fn_open p rows0 (foldl (footnote_line_step tf s1 s2 pn lines) st ks)
     \<or> fn_done (pn + 1) p rows0 (foldl (footnote_line_step tf s1 s2 pn lines) st ks)"
proof (induction ks arbitrary: st)
  case Nil
  then show ?case by simp
next
  case (Cons k ks)
  from Cons.prems have "fn_open p rows0 (footnote_line_step tf s1 s2 pn lines st k)
       \<or> fn_done (pn + 1) p rows0 (footnote_line_step tf s1 s2 pn lines st k)"
    unfolding footnote_line_step_def by (rule line_from_inv)
  then show ?case using Cons.IH by simp
qed

lemma block_from_done:
  assumes inv: "fn_open p rows0 st \<or> fn_done (pn + 1) p rows0 st" and k: "k < length lines"
  shows "fn_done (pn + 1) p rows0 (footnote_block_from tf s1 s2 pn lines k i st)"
proof (cases "k + 1 = length lines")
  case True
  then have e: "[Suc k..<length lines] = []" by simp
  show ?thesis
    using line_from_last_done [OF inv True, of tf s1 s2 i]
    by (simp only: footnote_block_from_def e foldl_Nil)
next
  case False
  define n where "n = length lines - 1"
  from False k have n: "Suc k \<le> n" "length lines = Suc n" by (auto simp: n_def)
  then have split: "[Suc k..<length lines] = [Suc k..<n] @ [n]" by simp
  let ?st1 = "foldl (footnote_line_step tf s1 s2 pn lines)
                (footnote_line_from tf s1 s2 pn lines k i st) [Suc k..<n]"
  have "fn_open p rows0 ?st1 \<or> fn_done (pn + 1) p rows0 ?st1"
    by (rule line_loop_inv) (rule line_from_inv [OF inv])
  then have "fn_done (pn + 1) p rows0 (footnote_line_from tf s1 s2 pn lines n 0 ?st1)"
    by (rule line_from_last_done) (simp add: n)
  then show ?thesis
    by (simp add: footnote_block_from_def split footnote_line_step_def)
qed

lemma block_step_resume:
  assumes "k < length lines" and "i \<le> length (lines ! k)"
  shows "footnote_block_step tf s1 s2 pn st0 (Text_block lines) =
         footnote_block_from tf s1 s2 pn lines k i
           (footnote_state_at tf s1 s2 pn lines st0 k i)"
proof -
  have a: "[0..<length lines] = [0..<k] @ k # [Suc k..<length lines]"
    using assms(1) upt_add_eq_append [of 0 k "length lines - k"]
    by (simp add: upt_conv_Cons)
  have b: "[0..<length (lines ! k)] = [0..<i] @ [i..<length (lines ! k)]"
    using assms(2) upt_add_eq_append [of 0 i "length (lines ! k) - i"] by simp
  show ?thesis
    by (simp add: footnote_block_step_def footnote_block_from_def a footnote_state_at_def
        footnote_line_step_def [of _ _ _ _ _ _ k] footnote_line_from_def [of _ _ _ _ _ k] b Let_def)
qed

lemma state_at_Suc:
  "i < length (lines ! k) \<Longrightarrow>
   footnote_state_at tf s1 s2 pn lines st0 k (Suc i) =
   footnote_span_step tf s1 s2 pn (lines ! k) (footnote_state_at tf s1 s2 pn lines st0 k i) i"
  by (simp add: footnote_state_at_def)

lemma open_step:
  assumes "\<not> collecting st" and "i + 1 < length spans"
    and "span_font (spans ! i) = tf" and "span_size (spans ! i) = s1"
    and "span_size (spans ! (i + 1)) = s2"
  shows "footnote_span_step tf s1 s2 pn spans st i =
           st\<lparr>collecting := True,
              footnote_text := span_text (spans ! i) @ '' '' @ strip (span_text (spans ! (i + 1)))\<rparr>"
  using assms by (simp add: footnote_span_step_def Let_def)

lemma continue_step:
  assumes "collecting st"
    and "\<not> (i + 1 < length spans \<and> endswith (span_text (spans ! i)) ''.''
            \<and> match_upper (span_text (spans ! (i + 1))))"
  shows "footnote_span_step tf s1 s2 pn spans st i =
           st\<lparr>footnote_text := footnote_text st @ '' '' @ span_text (spans ! i)\<rparr>"
  using assms by (auto simp add: footnote_span_step_def Let_def)

text \<open>
  C3 (amended). When the loops of a block reach, with the accumulator IDLE, a span of the
  target font and the small size followed in its line by a span of the larger size, the
  accumulator enters OPEN with the buffer: the marker's text, one space, the following
  span's text trimmed. The block then appends, right after the rows present at that
  moment, a row for the current page whose text begins with that buffer trimmed. The
  separating space stands between the two texts, so the row does not begin with their
  plain concatenation.
\<close>

theorem footnote_open_prefix:
  assumes "k < length lines" and "i + 1 < length (lines ! k)"
    and "st = footnote_state_at target_font size1 size2 page_num lines st0 k i"
    and "\<not> collecting st"
    and "span_font (lines ! k ! i) = target_font"
    and "span_size (lines ! k ! i) = size1"
    and "span_size (lines ! k ! (i + 1)) = size2"
    and "marker = span_text (lines ! k ! i)"
    and "following = span_text (lines ! k ! (i + 1))"
  shows "footnote_span_step target_font size1 size2 page_num (lines ! k) st i =
           st\<lparr>collecting := True, footnote_text := marker @ '' '' @ strip following\<rparr>
       \<and> (\<exists>t more. rows (footnote_block_step target_font size1 size2 page_num st0 (Text_block lines))
                      = rows st @ (page_num + 1, t) # more
                    \<and> prefix (strip (marker @ '' '' @ strip following)) t)"
proof -
  let ?p = "marker @ '' '' @ strip following"
  let ?st1 = "footnote_span_step target_font size1 size2 page_num (lines ! k) st i"
  have s1: "?st1 = st\<lparr>collecting := True, footnote_text := ?p\<rparr>"
    using assms by (simp add: open_step)
  then have "fn_open ?p (rows st) ?st1 \<or> fn_done (page_num + 1) ?p (rows st) ?st1"
    by (simp add: fn_open_def)
  then have "fn_done (page_num + 1) ?p (rows st)
               (footnote_block_from target_font size1 size2 page_num lines k (Suc i) ?st1)"
    using assms(1) by (rule block_from_done)
  moreover have "footnote_block_step target_font size1 size2 page_num st0 (Text_block lines) =
         footnote_block_from target_font size1 size2 page_num lines k (Suc i) ?st1"
    using assms(1,2,3) by (simp add: block_step_resume [of k lines "Suc i"] state_at_Suc)
  ultimately show ?thesis using s1 by (simp add: fn_done_def)
qed

theorem footnote_open_prefix_witness:
  "\<not> collecting fn_init
   \<and> footnote_span_step ''Helvetica'' 6 9 0
        [mk_span ''Helvetica'' 6 ''1'', mk_span ''Helvetica'' 9 '' See '',
         mk_span ''Helvetica'' 9 ''ante.''] fn_init 0
      = fn_init\<lparr>collecting := True, footnote_text := ''1 See''\<rparr>
   \<and> (\<exists>t more. rows (footnote_block_step ''Helvetica'' 6 9 0 fn_init
                       (Text_block [ [mk_span ''Helvetica'' 6 ''1'',
                                     mk_span ''Helvetica'' 9 '' See '',
                                     mk_span ''Helvetica'' 9 ''ante.''] ]))
                  = rows fn_init @ (1, t) # more
                \<and> prefix ''1 See'' t)"
  using footnote_open_prefix
    [where k = 0 and i = 0 and st0 = fn_init and st = fn_init
       and lines = "[ [mk_span ''Helvetica'' 6 ''1'', mk_span ''Helvetica'' 9 '' See '',
                      mk_span ''Helvetica'' 9 ''ante.''] ]"
       and target_font = "''Helvetica''" and ?size1.0 = 6 and ?size2.0 = 9 and page_num = 0
       and marker = "''1''" and following = "'' See ''"]
  by (simp add: mk_span_def fn_init_def footnote_state_at_def
      strip_def lstrip_def rstrip_def is_space_def)

text \<open>
  The claim as first worded fails on a marker \<open>1\<close> followed by \<open>See\<close>: the only row is
  \<open>1 See See\<close>, which does not begin with \<open>1See\<close>.
\<close>

theorem footnote_open_concat_counterexample:
  "extract_footnotes
     [text_page [ [mk_span ''Helvetica'' 6 ''1'', mk_span ''Helvetica'' 9 ''See''] ] ]
     ''Helvetica'' 6 9 = [(1, ''1 See See'')]
   \<and> \<not> prefix (''1'' @ ''See'') ''1 See See''"
  by (simp add: extract_footnotes_def text_page_def mk_span_def footnote_page_step_def
      footnote_block_step_def footnote_line_step_def footnote_line_from_def
      footnote_span_step_def emit_row_def fn_init_def strip_def lstrip_def rstrip_def
      is_space_def endswith_def match_upper_def is_upper_AZ_def Let_def)

text \<open>
  C9. When the start signature matches at span \<open>i\<close> and span \<open>i + 1\<close> does not trigger the
  closing test, the next iteration appends the text of span \<open>i + 1\<close> again: the buffer is
  the marker's text, a space, that text trimmed, a space, and that text once more; the row
  emitted for this footnote begins with this buffer trimmed, so it holds the text of the
  span after the marker twice in a row.
\<close>

theorem footnote_next_span_twice:
  assumes "k < length lines" and "i + 1 < length (lines ! k)"
    and "st = footnote_state_at target_font size1 size2 page_num lines st0 k i"
    and "\<not> collecting st"
    and "span_font (lines ! k ! i) = target_font"
    and "span_size (lines ! k ! i) = size1"
    and "span_size (lines ! k ! (i + 1)) = size2"
    and "marker = span_text (lines ! k ! i)"
    and "following = span_text (lines ! k ! (i + 1))"
    and "\<not> (i + 2 < length (lines ! k) \<and> endswith following ''.''
            \<and> match_upper (span_text (lines ! k ! (i + 2))))"
  shows "footnote_state_at target_font size1 size2 page_num lines st0 k (i + 2) =
           st\<lparr>collecting := True,
              footnote_text := marker @ '' '' @ strip following @ '' '' @ following\<rparr>
       \<and> (\<exists>t more. rows (footnote_block_step target_font size1 size2 page_num st0 (Text_block lines))
                      = rows st @ (page_num + 1, t) # more
                    \<and> prefix (strip (marker @ '' '' @ strip following @ '' '' @ following)) t)"
proof -
  let ?p = "marker @ '' '' @ strip following @ '' '' @ following"
  let ?st1 = "footnote_span_step target_font size1 size2 page_num (lines ! k) st i"
  let ?st2 = "footnote_span_step target_font size1 size2 page_num (lines ! k) ?st1 (Suc i)"
  have s1: "?st1 = st\<lparr>collecting := True, footnote_text := marker @ '' '' @ strip following\<rparr>"
    using assms by (simp add: open_step)
  have c: "collecting ?st1" by (simp add: s1)
  have n: "\<not> (Suc i + 1 < length (lines ! k)
            \<and> endswith (span_text (lines ! k ! Suc i)) ''.''
            \<and> match_upper (span_text (lines ! k ! (Suc i + 1))))"
    using assms(9,10) by simp
  have "?st2 = ?st1\<lparr>footnote_text :=
                      footnote_text ?st1 @ '' '' @ span_text (lines ! k ! Suc i)\<rparr>"
    using c n by (rule continue_step)
  then have s2: "?st2 = st\<lparr>collecting := True, footnote_text := ?p\<rparr>"
    using assms(9) by (simp add: s1)
  have at: "footnote_state_at target_font size1 size2 page_num lines st0 k (Suc (Suc i)) = ?st2"
    using assms(2,3) by (simp add: state_at_Suc)
  have "fn_open ?p (rows st) (st\<lparr>collecting := True, footnote_text := ?p\<rparr>)"
    by (simp add: fn_open_def)
  then have "fn_open ?p (rows st) ?st2" by (simp only: s2)
  then have "fn_open ?p (rows st) ?st2 \<or> fn_done (page_num + 1) ?p (rows st) ?st2" ..
  then have "fn_done (page_num + 1) ?p (rows st)
               (footnote_block_from target_font size1 size2 page_num lines k (Suc (Suc i)) ?st2)"
    using assms(1) by (rule block_from_done)
  moreover have "footnote_block_step target_font size1 size2 page_num st0 (Text_block lines) =
         footnote_block_from target_font size1 size2 page_num lines k (Suc (Suc i)) ?st2"
    using assms(1,2)
      block_step_resume [of k lines "Suc (Suc i)" target_font size1 size2 page_num st0]
    by (simp add: at)
  ultimately show ?thesis using s2 at by (simp add: fn_done_def)
qed

theorem footnote_next_span_twice_witness:
  "\<not> collecting fn_init
   \<and> footnote_state_at ''Helvetica'' 6 9 0
        [ [mk_span ''Helvetica'' 6 ''1'', mk_span ''Helvetica'' 9 ''See'',
          mk_span ''Helvetica'' 9 ''ante.''] ] fn_init 0 2
      = fn_init\<lparr>collecting := True, footnote_text := ''1 See See''\<rparr>
   \<and> (\<exists>t more. rows (footnote_block_step ''Helvetica'' 6 9 0 fn_init
                       (Text_block [ [mk_span ''Helvetica'' 6 ''1'',
                                     mk_span ''Helvetica'' 9 ''See'',
                                     mk_span ''Helvetica'' 9 ''ante.''] ]))
                  = rows fn_init @ (1, t) # more
                \<and> prefix ''1 See See'' t)"
  using footnote_next_span_twice
    [where k = 0 and i = 0 and st0 = fn_init and st = fn_init
       and lines = "[ [mk_span ''Helvetica'' 6 ''1'', mk_span ''Helvetica'' 9 ''See'',
                      mk_span ''Helvetica'' 9 ''ante.''] ]"
       and target_font = "''Helvetica''" and ?size1.0 = 6 and ?size2.0 = 9 and page_num = 0
       and marker = "''1''" and following = "''See''"]
  by (simp add: mk_span_def fn_init_def footnote_state_at_def endswith_def
      strip_def lstrip_def rstrip_def is_space_def numeral_2_eq_2)

section \<open>Opinion extraction: identifiers\<close>

lemma opinion_span_step_ids: "ids_ok st \<Longrightarrow> ids_ok (opinion_span_step pdf_name page_num st sp)"
  by (simp add: ids_ok_def opinion_span_step_def Let_def)

lemma opinion_line_ids:
  "ids_ok st \<Longrightarrow> ids_ok (foldl (opinion_span_step pdf_name page_num) st spans)"
  by (induction spans arbitrary: st) (simp_all add: opinion_span_step_ids)

lemma opinion_lines_ids:
  "ids_ok st \<Longrightarrow>
   ids_ok (foldl (\<lambda>s spans. foldl (opinion_span_step pdf_name page_num) s spans) st lns)"
  by (induction lns arbitrary: st) (simp_all add: opinion_line_ids)

lemma opinion_block_step_ids: "ids_ok st \<Longrightarrow> ids_ok (opinion_block_step pdf_name page_num st b)"
  by (cases b) (simp_all add: opinion_block_step_def opinion_lines_ids)

lemma opinion_blocks_ids:
  "ids_ok st \<Longrightarrow> ids_ok (foldl (opinion_block_step pdf_name page_num) st bs)"
  by (induction bs arbitrary: st) (simp_all add: opinion_block_step_ids)

lemma opinion_page_step_ids: "ids_ok st \<Longrightarrow> ids_ok (opinion_page_step pdf_name doc st page_num)"
proof -
  assume a: "ids_ok st"
  let ?st1 = "st\<lparr>urls_dic_accumulated :=
                   urls_dic_accumulated st @ get_page_links (doc ! page_num)\<rparr>"
  from a have "ids_ok ?st1" by (simp add: ids_ok_def)
  then have "ids_ok (foldl (opinion_block_step pdf_name page_num) ?st1
                       (page_blocks (doc ! page_num)))"
    by (rule opinion_blocks_ids)
  then show ?thesis by (simp add: opinion_page_step_def Let_def)
qed

lemma opinion_page_loop_ids:
  "ids_ok st \<Longrightarrow> ids_ok (foldl (opinion_page_step pdf_name doc) st ns)"
  by (induction ns arbitrary: st) (simp_all add: opinion_page_step_ids)

lemma opinion_pages_ids: "ids_ok (opinion_pages pdf_name doc)"
  unfolding opinion_pages_def
  by (rule opinion_page_loop_ids) (simp add: ids_ok_def opinion_init_def)

text \<open>
  C8. The \<open>opinion_id\<close> values of the records a run inserts, in insertion order, are
  \<open>0, 1, 2, ...\<close>: they start at 0 and go up by one, without gap or repeat.
\<close>

theorem opinion_ids_consecutive:
  "map rec_opinion_id (opinion_main pdf_name doc) = [0..<length (opinion_main pdf_name doc)]"
proof -
  let ?st = "opinion_pages pdf_name doc"
  have ids: "map rec_opinion_id (collection ?st) = [0..<opinion_id ?st]"
    using opinion_pages_ids [of pdf_name doc] by (simp add: ids_ok_def)
  then have "length (map rec_opinion_id (collection ?st)) = length [0..<opinion_id ?st]"
    by (rule arg_cong)
  then have len: "length (collection ?st) = opinion_id ?st" by simp
  show ?thesis
    by (simp add: opinion_main_def Let_def ids len)
qed

section \<open>Opinion extraction: a header met while an opinion is open\<close>

text \<open>
  C1 (amended). When a header span is matched while an opinion is OPEN and the accumulated
  content is not empty after trimming, the open opinion is inserted as a record with its
  own start page, \<open>end_page\<close> the current 1-based page minus 1, the trimmed content and the
  accumulated hyperlinks; the counter goes up, content and hyperlinks are reset to empty,
  and only then the new opinion opens on the current page. When the accumulated content is
  empty, nothing is inserted and nothing is reset: the new opinion opens on the current
  page with the hyperlinks kept.
\<close>

theorem opinion_header_supersede:
  assumes "opinion_header sp" and "opinion_started st"
  shows "(strip (page_text st) \<noteq> [] \<longrightarrow>
            opinion_span_step pdf_name page_num st sp =
              st\<lparr>collection := collection st @
                     [\<lparr>rec_pdf = pdf_name, rec_opinion_id = opinion_id st,
                       rec_start_page = start_page_1based st,
                       rec_end_page = (page_num + 1) - 1,
                       rec_content = strip (page_text st),
                       rec_urls_dic = urls_dic_accumulated st\<rparr>],
                 opinion_id := opinion_id st + 1,
                 page_text := [],
                 urls_dic_accumulated := [],
                 opinion_started := True,
                 start_page_1based := Some (page_num + 1)\<rparr>)
       \<and> (strip (page_text st) = [] \<longrightarrow>
            opinion_span_step pdf_name page_num st sp =
              st\<lparr>opinion_started := True, start_page_1based := Some (page_num + 1)\<rparr>)"
  using assms by (simp add: opinion_span_step_def Let_def)

theorem opinion_header_supersede_witness:
  "opinion_header (mk_span ''Helvetica-Bold'' 14 ''Opinion'')
   \<and> opinion_span_step ''cp01.pdf'' 2
        \<lparr>opinion_started = True, page_text = ''We affirm.'',
          urls_dic_accumulated = [\<lparr>raw_text = ''A'', link = ''http://a''\<rparr>],
          opinion_id = 0, start_page_1based = Some 1, collection = []\<rparr>
        (mk_span ''Helvetica-Bold'' 14 ''Opinion'')
      = \<lparr>opinion_started = True, page_text = [], urls_dic_accumulated = [],
          opinion_id = 1, start_page_1based = Some 3,
          collection =
            [\<lparr>rec_pdf = ''cp01.pdf'', rec_opinion_id = 0, rec_start_page = Some 1,
              rec_end_page = 2, rec_content = ''We affirm.'',
              rec_urls_dic = [\<lparr>raw_text = ''A'', link = ''http://a''\<rparr>]\<rparr>]\<rparr>
   \<and> opinion_span_step ''cp01.pdf'' 2
        \<lparr>opinion_started = True, page_text = [],
          urls_dic_accumulated = [\<lparr>raw_text = ''A'', link = ''http://a''\<rparr>],
          opinion_id = 0, start_page_1based = Some 1, collection = []\<rparr>
        (mk_span ''Helvetica-Bold'' 14 ''Opinion'')
      = \<lparr>opinion_started = True, page_text = [],
          urls_dic_accumulated = [\<lparr>raw_text = ''A'', link = ''http://a''\<rparr>],
          opinion_id = 0, start_page_1based = Some 3, collection = []\<rparr>"
proof -
  have h: "opinion_header (mk_span ''Helvetica-Bold'' 14 ''Opinion'')"
    by (simp add: opinion_header_def mk_span_def opinion_pattern_def startswith_def
        strip_def lstrip_def rstrip_def is_space_def)
  have n: "strip ''We affirm.'' = ''We affirm.''"
    by (simp add: strip_def lstrip_def rstrip_def is_space_def)
  have e: "strip [] = []"
    by (simp add: strip_def lstrip_def rstrip_def)
  show ?thesis
    using h
      opinion_header_supersede
        [where sp = "mk_span ''Helvetica-Bold'' 14 ''Opinion''"
           and st = "\<lparr>opinion_started = True, page_text = ''We affirm.'',
                       urls_dic_accumulated = [\<lparr>raw_text = ''A'', link = ''http://a''\<rparr>],
                       opinion_id = 0, start_page_1based = Some 1, collection = []\<rparr>"
           and pdf_name = "''cp01.pdf''" and page_num = 2]
      opinion_header_supersede
        [where sp = "mk_span ''Helvetica-Bold'' 14 ''Opinion''"
           and st = "\<lparr>opinion_started = True, page_text = [],
                       urls_dic_accumulated = [\<lparr>raw_text = ''A'', link = ''http://a''\<rparr>],
                       opinion_id = 0, start_page_1based = Some 1, collection = []\<rparr>"
           and pdf_name = "''cp01.pdf''" and page_num = 2]
    by (simp add: n e)
qed

text \<open>
  The claim as first worded fails when nothing was accumulated: with a header alone on
  page 1 and a header alone on page 2 the run inserts no record at all, the second opinion
  is open on page 2 and the link of page 1 is still accumulated.
\<close>

theorem opinion_header_supersede_counterexample:
  "opinion_main ''cp01.pdf'' two_headers_doc = []
   \<and> opinion_started (opinion_pages ''cp01.pdf'' two_headers_doc)
   \<and> start_page_1based (opinion_pages ''cp01.pdf'' two_headers_doc) = Some 2
   \<and> urls_dic_accumulated (opinion_pages ''cp01.pdf'' two_headers_doc) =
       [\<lparr>raw_text = ''A'', link = ''http://a''\<rparr>]"
  by code_simp

section \<open>Opinion extraction: hyperlinks\<close>

lemma opinion_span_step_links:
  "(collection (opinion_span_step pdf_name page_num st sp) = collection st
      \<and> urls_dic_accumulated (opinion_span_step pdf_name page_num st sp) = urls_dic_accumulated st)
   \<or> (\<exists>r. collection (opinion_span_step pdf_name page_num st sp) = collection st @ [r]
          \<and> rec_urls_dic r = urls_dic_accumulated st
          \<and> urls_dic_accumulated (opinion_span_step pdf_name page_num st sp) = [])"
  by (simp add: opinion_span_step_def Let_def)

lemma opinion_span_step_kept:
  assumes "links_kept c u st"
  shows "links_kept c u (opinion_span_step pdf_name page_num st sp)"
  using assms opinion_span_step_links [of pdf_name page_num st sp]
  by (auto simp add: links_kept_def)

lemma opinion_line_kept:
  "links_kept c u st \<Longrightarrow> links_kept c u (foldl (opinion_span_step pdf_name page_num) st spans)"
  by (induction spans arbitrary: st) (simp_all add: opinion_span_step_kept)

lemma opinion_lines_kept:
  "links_kept c u st \<Longrightarrow>
   links_kept c u (foldl (\<lambda>s spans. foldl (opinion_span_step pdf_name page_num) s spans) st lns)"
  by (induction lns arbitrary: st) (simp_all add: opinion_line_kept)

lemma opinion_block_step_kept:
  "links_kept c u st \<Longrightarrow> links_kept c u (opinion_block_step pdf_name page_num st b)"
  by (cases b) (simp_all add: opinion_block_step_def opinion_lines_kept)

lemma opinion_blocks_kept:
  "links_kept c u st \<Longrightarrow> links_kept c u (foldl (opinion_block_step pdf_name page_num) st bs)"
  by (induction bs arbitrary: st) (simp_all add: opinion_block_step_kept)

lemma opinion_page_step_kept:
  "links_kept (collection st) (urls_dic_accumulated st @ get_page_links (doc ! page_num))
     (opinion_page_step pdf_name doc st page_num)"
proof -
  let ?st1 = "st\<lparr>urls_dic_accumulated :=
                   urls_dic_accumulated st @ get_page_links (doc ! page_num)\<rparr>"
  have "links_kept (collection st) (urls_dic_accumulated st @ get_page_links (doc ! page_num)) ?st1"
    by (simp add: links_kept_def)
  then have "links_kept (collection st)
               (urls_dic_accumulated st @ get_page_links (doc ! page_num))
               (foldl (opinion_block_step pdf_name page_num) ?st1 (page_blocks (doc ! page_num)))"
    by (rule opinion_blocks_kept)
  then show ?thesis by (simp add: opinion_page_step_def Let_def)
qed

lemma links_doc_run:
  "opinion_main ''cp01.pdf'' links_doc =
     [\<lparr>rec_pdf = ''cp01.pdf'', rec_opinion_id = 0, rec_start_page = Some 2,
       rec_end_page = 2, rec_content = ''The court holds.'',
       rec_urls_dic = [\<lparr>raw_text = ''A'', link = ''http://a''\<rparr>,
                       \<lparr>raw_text = ''B'', link = ''http://b''\<rparr>]\<rparr>]"
  by code_simp

text \<open>
  C10. A page's hyperlinks are appended to the accumulated list whether or not an opinion
  is open: a page during which no record is inserted leaves the list as it was plus the
  page's links. A span either inserts no record and leaves the list alone, or inserts one
  record, which carries the list, and empties it. A header met while an opinion is open
  with empty content inserts nothing, so the links carry over into the new opinion. In the
  example the record starts on page 2 and holds the link of page 1.
\<close>

theorem opinion_links_accumulate:
  "(collection (opinion_page_step pdf_name doc st page_num) = collection st \<longrightarrow>
      urls_dic_accumulated (opinion_page_step pdf_name doc st page_num) =
        urls_dic_accumulated st @ get_page_links (doc ! page_num))
   \<and> ((collection (opinion_span_step pdf_name page_num st sp) = collection st
        \<and> urls_dic_accumulated (opinion_span_step pdf_name page_num st sp) =
            urls_dic_accumulated st)
      \<or> (\<exists>r. collection (opinion_span_step pdf_name page_num st sp) = collection st @ [r]
             \<and> rec_urls_dic r = urls_dic_accumulated st
             \<and> urls_dic_accumulated (opinion_span_step pdf_name page_num st sp) = []))
   \<and> (opinion_header sp \<and> opinion_started st \<and> strip (page_text st) = [] \<longrightarrow>
        collection (opinion_span_step pdf_name page_num st sp) = collection st
        \<and> urls_dic_accumulated (opinion_span_step pdf_name page_num st sp) =
            urls_dic_accumulated st
        \<and> opinion_started (opinion_span_step pdf_name page_num st sp)
        \<and> start_page_1based (opinion_span_step pdf_name page_num st sp) = Some (page_num + 1))
   \<and> opinion_main ''cp01.pdf'' links_doc =
       [\<lparr>rec_pdf = ''cp01.pdf'', rec_opinion_id = 0, rec_start_page = Some 2,
         rec_end_page = 2, rec_content = ''The court holds.'',
         rec_urls_dic = [\<lparr>raw_text = ''A'', link = ''http://a''\<rparr>,
                         \<lparr>raw_text = ''B'', link = ''http://b''\<rparr>]\<rparr>]"
proof (intro conjI)
  show "collection (opinion_page_step pdf_name doc st page_num) = collection st \<longrightarrow>
      urls_dic_accumulated (opinion_page_step pdf_name doc st page_num) =
        urls_dic_accumulated st @ get_page_links (doc ! page_num)"
    using opinion_page_step_kept [of st doc page_num pdf_name]
    by (auto simp add: links_kept_def)
next
  show "(collection (opinion_span_step pdf_name page_num st sp) = collection st
        \<and> urls_dic_accumulated (opinion_span_step pdf_name page_num st sp) =
            urls_dic_accumulated st)
      \<or> (\<exists>r. collection (opinion_span_step pdf_name page_num st sp) = collection st @ [r]
             \<and> rec_urls_dic r = urls_dic_accumulated st
             \<and> urls_dic_accumulated (opinion_span_step pdf_name page_num st sp) = [])"
    by (rule opinion_span_step_links)
next
  show "opinion_header sp \<and> opinion_started st \<and> strip (page_text st) = [] \<longrightarrow>
        collection (opinion_span_step pdf_name page_num st sp) = collection st
        \<and> urls_dic_accumulated (opinion_span_step pdf_name page_num st sp) =
            urls_dic_accumulated st
        \<and> opinion_started (opinion_span_step pdf_name page_num st sp)
        \<and> start_page_1based (opinion_span_step pdf_name page_num st sp) = Some (page_num + 1)"
    by (simp add: opinion_span_step_def Let_def)
next
  show "opinion_main ''cp01.pdf'' links_doc =
       [\<lparr>rec_pdf = ''cp01.pdf'', rec_opinion_id = 0, rec_start_page = Some 2,
         rec_end_page = 2, rec_content = ''The court holds.'',
         rec_urls_dic = [\<lparr>raw_text = ''A'', link = ''http://a''\<rparr>,
                         \<lparr>raw_text = ''B'', link = ''http://b''\<rparr>]\<rparr>]"
    by (rule links_doc_run)
qed

theorem opinion_links_accumulate_witness:
  "collection (opinion_page_step ''cp01.pdf'' links_doc opinion_init 0) = collection opinion_init
   \<and> urls_dic_accumulated (opinion_page_step ''cp01.pdf'' links_doc opinion_init 0) =
       [\<lparr>raw_text = ''A'', link = ''http://a''\<rparr>]
   \<and> \<not> opinion_started opinion_init
   \<and> opinion_header (mk_span ''Helvetica-Bold'' 14 ''Opinion'')
   \<and> urls_dic_accumulated
       (opinion_span_step ''cp01.pdf'' 1
          \<lparr>opinion_started = True, page_text = [],
            urls_dic_accumulated = [\<lparr>raw_text = ''A'', link = ''http://a''\<rparr>],
            opinion_id = 0, start_page_1based = Some 1, collection = []\<rparr>
          (mk_span ''Helvetica-Bold'' 14 ''Opinion''))
      = [\<lparr>raw_text = ''A'', link = ''http://a''\<rparr>]
   \<and> start_page_1based
       (opinion_span_step ''cp01.pdf'' 1
          \<lparr>opinion_started = True, page_text = [],
            urls_dic_accumulated = [\<lparr>raw_text = ''A'', link = ''http://a''\<rparr>],
            opinion_id = 0, start_page_1based = Some 1, collection = []\<rparr>
          (mk_span ''Helvetica-Bold'' 14 ''Opinion''))
      = Some 2"
proof -
  have c: "collection (opinion_page_step ''cp01.pdf'' links_doc opinion_init 0) =
             collection opinion_init"
    by code_simp
  have g: "get_page_links (links_doc ! 0) = [\<lparr>raw_text = ''A'', link = ''http://a''\<rparr>]"
    by code_simp
  have h: "opinion_header (mk_span ''Helvetica-Bold'' 14 ''Opinion'')"
    by (simp add: opinion_header_def mk_span_def opinion_pattern_def startswith_def
        strip_def lstrip_def rstrip_def is_space_def)
  have e: "strip [] = []"
    by (simp add: strip_def lstrip_def rstrip_def)
  show ?thesis
    using c h
      opinion_links_accumulate
        [where pdf_name = "''cp01.pdf''" and doc = links_doc and st = opinion_init
           and page_num = 0 and sp = "mk_span ''Helvetica'' 10 ''Syllabus''"]
      opinion_links_accumulate
        [where pdf_name = "''cp01.pdf''" and doc = links_doc and page_num = 1
           and st = "\<lparr>opinion_started = True, page_text = [],
                       urls_dic_accumulated = [\<lparr>raw_text = ''A'', link = ''http://a''\<rparr>],
                       opinion_id = 0, start_page_1based = Some 1, collection = []\<rparr>"
           and sp = "mk_span ''Helvetica-Bold'' 14 ''Opinion''"]
    by (simp add: g e opinion_init_def)
qed

section \<open>Page ranges\<close>

lemma find_no_loop_spec: "find_no_loop rs page = resolve_spec rs page"
  by (induction rs) (auto simp add: resolve_spec_def range_qualifies_def split: option.splits)

lemma load_index_ranges_sorted:
  "load_index_ranges docs pdf = Some rs \<Longrightarrow> sorted (map entry_start rs)"
  by (auto simp add: load_index_ranges_def)

lemma ex_index_table: "load_index_ranges ex_index ''cp01.pdf'' = ex_table ''cp01.pdf''"
  by (simp add: load_index_ranges_def load_step_def ex_table_def ex_index_def)

text \<open>
  C4. \<open>find_no_for_page\<close> returns no value for an unknown document and otherwise the
  unit of the first range of the document's list that qualifies for the page
  (\<open>start \<le> page \<le> end\<close>, or \<open>page \<ge> start\<close> without an end), no value when none does;
  it is a total function, so the miss is a value. The lists that \<open>load_index_ranges\<close>
  builds are in ascending order of start page. For the table of the specification, which
  \<open>load_index_ranges\<close> builds from an unordered index, page 5 gives A, page 15 gives B,
  page 0 gives no match, and so does another document.
\<close>

theorem find_no_for_page_first_match:
  "find_no_for_page index_ranges pdf page =
     (case index_ranges pdf of None \<Rightarrow> None | Some rs \<Rightarrow> resolve_spec rs page)
   \<and> (\<forall>rs. load_index_ranges docs pdf = Some rs \<longrightarrow> sorted (map entry_start rs))
   \<and> load_index_ranges ex_index ''cp01.pdf'' = ex_table ''cp01.pdf''
   \<and> find_no_for_page ex_table ''cp01.pdf'' 5 = Some ''A''
   \<and> find_no_for_page ex_table ''cp01.pdf'' 15 = Some ''B''
   \<and> find_no_for_page ex_table ''cp01.pdf'' 0 = None
   \<and> find_no_for_page ex_table ''cp02.pdf'' 5 = None"
proof (intro conjI)
  show "find_no_for_page index_ranges pdf page =
     (case index_ranges pdf of None \<Rightarrow> None | Some rs \<Rightarrow> resolve_spec rs page)"
    by (simp add: find_no_for_page_def find_no_loop_spec split: option.splits)
  show "\<forall>rs. load_index_ranges docs pdf = Some rs \<longrightarrow> sorted (map entry_start rs)"
    by (simp add: load_index_ranges_sorted)
  show "load_index_ranges ex_index ''cp01.pdf'' = ex_table ''cp01.pdf''"
    by (rule ex_index_table)
  show "find_no_for_page ex_table ''cp01.pdf'' 5 = Some ''A''"
    by (simp add: find_no_for_page_def ex_table_def)
  show "find_no_for_page ex_table ''cp01.pdf'' 15 = Some ''B''"
    by (simp add: find_no_for_page_def ex_table_def)
  show "find_no_for_page ex_table ''cp01.pdf'' 0 = None"
    by (simp add: find_no_for_page_def ex_table_def)
  show "find_no_for_page ex_table ''cp02.pdf'' 5 = None"
    by (simp add: find_no_for_page_def ex_table_def)
qed

theorem find_no_for_page_first_match_witness:
  "load_index_ranges ex_index ''cp01.pdf'' =
     Some [\<lparr>entry_No = ''A'', entry_start = 1, entry_end = Some 10\<rparr>,
           \<lparr>entry_No = ''B'', entry_start = 11, entry_end = None\<rparr>]
   \<and> sorted (map entry_start
       [\<lparr>entry_No = ''A'', entry_start = 1, entry_end = Some 10\<rparr>,
        \<lparr>entry_No = ''B'', entry_start = 11, entry_end = (None :: int option)\<rparr>])
   \<and> find_no_for_page (load_index_ranges ex_index) ''cp01.pdf'' 12 =
       resolve_spec [\<lparr>entry_No = ''A'', entry_start = 1, entry_end = Some 10\<rparr>,
                     \<lparr>entry_No = ''B'', entry_start = 11, entry_end = None\<rparr>] 12
   \<and> find_no_for_page (load_index_ranges ex_index) ''cp01.pdf'' 12 = Some ''B''"
  using find_no_for_page_first_match
    [where index_ranges = "load_index_ranges ex_index" and pdf = "''cp01.pdf''" and page = 12
       and docs = ex_index]
  by (simp add: load_index_ranges_def load_step_def ex_index_def resolve_spec_def
      range_qualifies_def)

section \<open>Bounded sections\<close>

text \<open>
  C5. When the content captured by \<open>extract_section\<close> (newlines replaced by spaces,
  then trimmed) is longer than \<open>max_len\<close>, the result is the empty string. In every case
  the result is either empty or the whole captured content, of length at most
  \<open>max_len\<close>: never a shortened one.
\<close>

theorem extract_section_overlength_empty:
  "(search_section start_label end_labels input = Some g
      \<and> max_len < int (length (section_content g))
      \<longrightarrow> extract_section start_label end_labels input max_len = [])
   \<and> (extract_section start_label end_labels input max_len = []
      \<or> (\<exists>g. search_section start_label end_labels input = Some g
             \<and> extract_section start_label end_labels input max_len = section_content g
             \<and> int (length (section_content g)) \<le> max_len))"
  by (auto simp add: extract_section_def Let_def split: option.splits)

theorem extract_section_overlength_empty_witness:
  "search_section ''Judges:'' [lit ''Opinion by:''] judges_text = Some ''SMITH, JONES''
   \<and> section_content ''SMITH, JONES'' = ''SMITH, JONES''
   \<and> (11 :: int) < int (length ''SMITH, JONES'')
   \<and> extract_section ''Judges:'' [lit ''Opinion by:''] judges_text 11 = []
   \<and> extract_section ''Judges:'' [lit ''Opinion by:''] judges_text 12 = ''SMITH, JONES''"
proof -
  have s: "search_section ''Judges:'' [lit ''Opinion by:''] judges_text = Some ''SMITH, JONES''"
    by code_simp
  have c: "section_content ''SMITH, JONES'' = ''SMITH, JONES''"
    by code_simp
  have e: "extract_section ''Judges:'' [lit ''Opinion by:''] judges_text 12 = ''SMITH, JONES''"
    by code_simp
  show ?thesis
    using extract_section_overlength_empty
      [where start_label = "''Judges:''" and end_labels = "[lit ''Opinion by:'']"
         and input = judges_text and g = "''SMITH, JONES''" and max_len = 11]
    by (simp add: s c e)
qed

section \<open>Bounded sections: the capture\<close>

















section \<open>Start page out of range\<close>

text \<open>
  C7. A start page below 0 or not below the page count makes
  \<open>extract_case_metadata_from_page\<close> raise \<open>ValueError\<close>: no record is built and no
  other page is read in its place. For a start page within bounds the check passes and the
  record is built from the windows that start at that very page.
\<close>

theorem metadata_start_page_range:
  "(start_page_0based < 0 \<or> int (length doc) \<le> start_page_0based \<longrightarrow>
      extract_case_metadata_from_page build_record doc start_page_0based
        local_scan_pages extended_scan_pages
      = Inl (ValueError start_page_0based (length doc)))
   \<and> (0 \<le> start_page_0based \<and> start_page_0based < int (length doc) \<longrightarrow>
      extract_case_metadata_from_page build_record doc start_page_0based
        local_scan_pages extended_scan_pages
      = Inr (build_record (window_text doc start_page_0based local_scan_pages)
               (window_text doc start_page_0based extended_scan_pages)
               (page_blocks (doc ! nat start_page_0based))))"
  by (auto simp add: extract_case_metadata_from_page_def Let_def)

theorem metadata_start_page_range_witness:
  "extract_case_metadata_from_page (\<lambda>local_text extended_text blocks. judges_section local_text)
     judges_doc 2 2 13 = Inl (ValueError 2 2)
   \<and> extract_case_metadata_from_page (\<lambda>local_text extended_text blocks. judges_section local_text)
     judges_doc (- 1) 2 13 = Inl (ValueError (- 1) 2)
   \<and> extract_case_metadata_from_page (\<lambda>local_text extended_text blocks. judges_section local_text)
     judges_doc 1 2 13 = Inr ''SMITH, JONES''"
proof -
  have w: "window_text judges_doc 1 2 = judges_text"
    by code_simp
  have j: "judges_section judges_text = ''SMITH, JONES''"
    by code_simp
  show ?thesis
    using metadata_start_page_range
        [where build_record = "\<lambda>local_text extended_text blocks. judges_section local_text"
           and doc = judges_doc and start_page_0based = 2 and local_scan_pages = 2
           and extended_scan_pages = 13]
      metadata_start_page_range
        [where build_record = "\<lambda>local_text extended_text blocks. judges_section local_text"
           and doc = judges_doc and start_page_0based = "- 1" and local_scan_pages = 2
           and extended_scan_pages = 13]
      metadata_start_page_range
        [where build_record = "\<lambda>local_text extended_text blocks. judges_section local_text"
           and doc = judges_doc and start_page_0based = 1 and local_scan_pages = 2
           and extended_scan_pages = 13]
    by (simp add: w j) (simp add: judges_doc_def)
qed

end
